theory Spec2Isabelle
  imports Main "HOL-Library.Word" "HOL-Library.Multiset"
begin

unbundle bit_operations_syntax

section \<open>Machine types and constants (hp.h, faaq.h)\<close>

text \<open>
  Pointers and \<open>uintptr_t\<close> are 64-bit words, the null pointer is \<open>0\<close>. \<open>size_t\<close> is an
  unsigned 64-bit word. \<open>hazptr_count_t\<close> is \<open>int64_t\<close>: a 64-bit word that is compared
  through \<open>sint\<close>. \<open>int\<close> is a 32-bit word read through \<open>sint\<close>.
\<close>

type_synonym addr = "64 word"
type_synonym size_t = "64 word"
type_synonym hazptr_count_t = "64 word"
type_synonym c_int = "32 word"

definition HP_TLC_CAPACITY :: nat where
  "HP_TLC_CAPACITY = 8"

definition HP_NUM_SHARDS :: nat where
  "HP_NUM_SHARDS = 8"

definition HP_RCOUNT_THRESHOLD :: hazptr_count_t where
  "HP_RCOUNT_THRESHOLD = 1000"

definition HP_HCOUNT_MULTIPLIER :: size_t where
  "HP_HCOUNT_MULTIPLIER = 2"

definition FAA_BUFFER_SIZE :: nat where
  "FAA_BUFFER_SIZE = 1024"

section \<open>Data model\<close>

text \<open>
  A reclaim callback is a function pointer. \<open>node_reclaim_fn\<close> is \<open>node_reclaim\<close> of faaq.c;
  \<open>user_reclaim_fn k\<close> is a callback supplied by a client of the hazard-pointer engine,
  whose only effect visible here is that it was called. A null function pointer is \<open>None\<close>.
\<close>

datatype reclaim_fn = node_reclaim_fn | user_reclaim_fn nat

datatype error = Abort | AssertFail | Fault

text \<open>
  \<open>struct FAA_Node\<close>. The embedded descriptor \<open>hp_base\<close> has the address of the node; its
  two fields (\<open>next_retired\<close>, \<open>reclaim\<close>) are only used while the node is on a retired
  list and are kept in the entry of that list.
\<close>

record Node =
  deqidx :: size_t
  enqidx :: size_t
  nextp :: addr
  items :: "addr list"

text \<open>
  \<open>FAAArrayQueue_t\<close>. \<open>holders\<close> is the table of \<open>max_threads\<close> holders; a holder has the
  single field \<open>hprec\<close>, so the table lists the record pointers.
\<close>

record FAAArrayQueue =
  head :: addr
  tail :: addr
  taken_sentinel :: addr
  max_threads :: c_int
  holders :: "addr list"

text \<open>
  \<open>struct hazptr_domain\<close>. The three intrusive singly linked lists of the source
  (\<open>hprec_list\<close> through \<open>next\<close>, \<open>hprec_avail\<close> through \<open>next_avail\<close>, and each shard's
  \<open>retired_head\<close> through \<open>next_retired\<close>) are lists with the head of the linked list
  first. An entry of a retired list is the address of the descriptor together with the
  \<open>reclaim\<close> field written by \<open>hazptr_retire\<close>. This represents the linked lists as long as
  no descriptor is retired while it is already on a retired list.
\<close>

record hazptr_domain =
  hprec_list :: "addr list"
  hprec_avail :: "addr list"
  hprec_count :: size_t
  scan_set :: "addr set option"
  retired_count :: hazptr_count_t
  reclaiming :: bool
  shards :: "(addr \<times> reclaim_fn option) list list"

text \<open>
  The state of the program as one thread sees it: the global \<open>default_domain\<close>, the thread's
  \<open>tls_cache\<close> (\<open>records[0..count)\<close>), the once flag of the TSS key and the thread's
  \<open>registered\<close> flag, the protection slot \<open>ptr\<close> of every HP record, the heap of queue nodes and
  of queue structures, the calls of reclaim callbacks made so far, and the environment:
  \<open>mem\<close> lists the results of the coming calls of \<open>malloc\<close>, \<open>calloc\<close> and \<open>aligned_alloc\<close>
  (\<open>0\<close> is a failed allocation, and so is every call after the list is used up), and
  \<open>tss_create_ok\<close> says whether \<open>tss_create\<close> succeeds.
\<close>

record state =
  default_domain :: hazptr_domain
  tls_cache :: "addr list"
  tss_init_flag :: bool
  registered :: bool
  rec_ptr :: "addr \<Rightarrow> addr"
  nodes :: "addr \<rightharpoonup> Node"
  queues :: "addr \<rightharpoonup> FAAArrayQueue"
  reclaim_log :: "(reclaim_fn \<times> addr) list"
  mem :: "addr list"
  tss_create_ok :: bool

definition zero_domain :: hazptr_domain where
  "zero_domain = \<lparr>hprec_list = [], hprec_avail = [], hprec_count = 0, scan_set = None,
     retired_count = 0, reclaiming = False, shards = replicate HP_NUM_SHARDS []\<rparr>"

definition init_state :: "addr list \<Rightarrow> bool \<Rightarrow> state" where
  "init_state m t = \<lparr>default_domain = zero_domain, tls_cache = [], tss_init_flag = False,
     registered = False, rec_ptr = (\<lambda>_. 0), nodes = Map.empty, queues = Map.empty,
     reclaim_log = [], mem = m, tss_create_ok = t\<rparr>"

definition malloc :: "state \<Rightarrow> addr \<times> state" where
  "malloc s = (case mem s of [] \<Rightarrow> (0, s) | a # as \<Rightarrow> (a, s\<lparr>mem := as\<rparr>))"

section \<open>hp.h: hazptr_reset and HAZPTR_PROTECT\<close>

text \<open>
  A pointer to a holder is \<open>None\<close> when null and \<open>Some hprec\<close> otherwise, \<open>hprec\<close> being the
  holder's only field.
\<close>

definition hazptr_reset :: "addr option \<Rightarrow> addr \<Rightarrow> state \<Rightarrow> state" where
  "hazptr_reset h p s =
     (case h of None \<Rightarrow> s
      | Some hprec \<Rightarrow> if hprec = 0 then s else s\<lparr>rec_ptr := (rec_ptr s)(hprec := p)\<rparr>)"

text \<open>
  The loop of \<open>HAZPTR_PROTECT\<close>. \<open>src k\<close> is the value that the \<open>k\<close>-th atomic load of
  \<open>*src_ptr_\<close> returns (load \<open>0\<close> is the initial relaxed load), so that other threads may change
  the source between two loads. Not leaving the loop is \<open>None\<close>.
\<close>

partial_function (option) protect_loop ::
  "addr option \<Rightarrow> (nat \<Rightarrow> addr) \<Rightarrow> nat \<Rightarrow> addr \<Rightarrow> state \<Rightarrow> (addr \<times> state) option" where
  "protect_loop h src k p s =
     (let s' = hazptr_reset h p s;
          v = src k
      in if p = v then Some (p, s') else protect_loop h src (Suc k) v s')"

definition HAZPTR_PROTECT :: "addr option \<Rightarrow> (nat \<Rightarrow> addr) \<Rightarrow> state \<Rightarrow> (addr \<times> state) option" where
  "HAZPTR_PROTECT h src s = protect_loop h src 1 (src 0) s"

section \<open>hp.c\<close>




definition calc_shard :: "addr \<Rightarrow> size_t" where
  "calc_shard p = drop_bit 4 p AND (of_nat HP_NUM_SHARDS - 1)"

definition calculate_threshold :: "hazptr_domain \<Rightarrow> hazptr_count_t" where
  "calculate_threshold domain =
     (let thresh = HP_RCOUNT_THRESHOLD;
          hcount = hprec_count domain;
          dynamic_thresh = hcount * HP_HCOUNT_MULTIPLIER
      in if sint thresh < sint dynamic_thresh then dynamic_thresh else thresh)"

text \<open>
  Every compare-exchange of the sources, weak or strong, is taken to succeed exactly when
  the location holds the expected value; a retry loop around one then runs its body once.
\<close>

definition domain_check_threshold :: "hazptr_domain \<Rightarrow> hazptr_count_t \<times> hazptr_domain" where
  "domain_check_threshold domain =
     (let rcount = retired_count domain;
          thresh = calculate_threshold domain
      in if sint thresh \<le> sint rcount then (rcount, domain\<lparr>retired_count := 0\<rparr>)
         else (0, domain))"

definition node_reclaim :: "addr \<Rightarrow> state \<Rightarrow> state" where
  "node_reclaim obj s = (if obj = 0 then s else s\<lparr>nodes := (nodes s)(obj := None)\<rparr>)"

definition call_reclaim :: "reclaim_fn \<Rightarrow> addr \<Rightarrow> state \<Rightarrow> state" where
  "call_reclaim f obj s =
     (let s' = s\<lparr>reclaim_log := reclaim_log s @ [(f, obj)]\<rparr>
      in case f of node_reclaim_fn \<Rightarrow> node_reclaim obj s' | user_reclaim_fn k \<Rightarrow> s')"

text \<open>
  Modelled from the spec: the scan set. The source keeps it in a pointer set generated by
  \<open>khashl.h\<close>, which is not part of the sources; it is a set of addresses here, allocated
  by \<open>ptr_set_init\<close>, emptied by \<open>ptr_set_clear\<close>, extended by \<open>ptr_set_put\<close> and queried by
  \<open>ptr_set_get\<close>.
\<close>

definition ptr_set_init :: "state \<Rightarrow> error + state" where
  "ptr_set_init s =
     (case malloc s of (a, s1) \<Rightarrow>
        if a = 0 then Inl Abort
        else Inr (s1\<lparr>default_domain := (default_domain s1)\<lparr>scan_set := Some {}\<rparr>\<rparr>))"

definition load_protected :: "state \<Rightarrow> addr set" where
  "load_protected s =
     fold (\<lambda>rec P. if rec_ptr s rec \<noteq> 0 then insert (rec_ptr s rec) P else P)
       (hprec_list (default_domain s)) {}"

text \<open>
  The inner \<open>while (current)\<close> loop over one extracted list: \<open>remaining\<close> is the list from
  \<open>remaining_head\<close> to \<open>remaining_tail\<close>.
\<close>

fun match_and_reclaim ::
  "addr set \<Rightarrow> (addr \<times> reclaim_fn option) list \<Rightarrow>
   (addr \<times> reclaim_fn option) list \<times> hazptr_count_t \<times> state \<Rightarrow>
   (addr \<times> reclaim_fn option) list \<times> hazptr_count_t \<times> state" where
  "match_and_reclaim P [] acc = acc"
| "match_and_reclaim P (current # rest) (remaining, rcount, s) =
     (if fst current \<in> P then match_and_reclaim P rest (remaining @ [current], rcount, s)
      else match_and_reclaim P rest
             (remaining, rcount - 1,
              (case snd current of None \<Rightarrow> s | Some f \<Rightarrow> call_reclaim f (fst current) s)))"

text \<open>
  One iteration of the \<open>while (true)\<close> loop of \<open>domain_do_reclamation\<close>: the new \<open>rcount\<close>,
  whether the loop is left, and the new state.
\<close>

definition reclamation_iter :: "hazptr_count_t \<Rightarrow> state \<Rightarrow> hazptr_count_t \<times> bool \<times> state" where
  "reclamation_iter rcount s =
     (let domain = default_domain s;
          retired_lists = shards domain;
          extracted_any = (\<exists>l \<in> set retired_lists. l \<noteq> []);
          s1 = s\<lparr>default_domain := domain\<lparr>shards := replicate HP_NUM_SHARDS []\<rparr>\<rparr>;
          (rcount1, s2) =
            (if extracted_any then
               let P = load_protected s1;
                   s1' = s1\<lparr>default_domain := (default_domain s1)\<lparr>scan_set := Some P\<rparr>\<rparr>;
                   (remaining, rc, s1'') = fold (match_and_reclaim P) retired_lists ([], rcount, s1');
                   d = default_domain s1''
               in (rc, if remaining \<noteq> [] then
                         s1''\<lparr>default_domain := d\<lparr>shards := (shards d)[0 := remaining @ shards d ! 0]\<rparr>\<rparr>
                       else s1'')
             else (rcount, s1));
          d2 = default_domain s2;
          s3 = (if rcount1 \<noteq> 0 then
                  s2\<lparr>default_domain := d2\<lparr>retired_count := retired_count d2 + rcount1\<rparr>\<rparr>
                else s2);
          (rcount2, d4) = domain_check_threshold (default_domain s3);
          s4 = s3\<lparr>default_domain := d4\<rparr>
      in (rcount2, rcount2 = 0 \<and> (\<forall>l \<in> set (shards d4). l = []), s4))"

partial_function (option) reclamation_loop :: "hazptr_count_t \<Rightarrow> state \<Rightarrow> state option" where
  "reclamation_loop rcount s =
     (case reclamation_iter rcount s of
        (rcount', done, s') \<Rightarrow> if done then Some s' else reclamation_loop rcount' s')"

definition domain_do_reclamation :: "hazptr_count_t \<Rightarrow> state \<Rightarrow> (error + state) option" where
  "domain_do_reclamation claimed_count s =
     (let domain = default_domain s in
      if reclaiming domain then
        Some (Inr (if claimed_count \<noteq> 0 then
                     s\<lparr>default_domain := domain\<lparr>retired_count := retired_count domain + claimed_count\<rparr>\<rparr>
                   else s))
      else
        let s1 = s\<lparr>default_domain := domain\<lparr>reclaiming := True\<rparr>\<rparr> in
        case (if scan_set domain = None then ptr_set_init s1 else Inr s1) of
          Inl e \<Rightarrow> Some (Inl e)
        | Inr s2 \<Rightarrow>
            (case reclamation_loop claimed_count s2 of
               None \<Rightarrow> None
             | Some s3 \<Rightarrow> Some (Inr (s3\<lparr>default_domain := (default_domain s3)\<lparr>reclaiming := False\<rparr>\<rparr>))))"


text \<open>The push of the descriptor onto its shard (the compare-exchange loop of \<open>hazptr_retire\<close>).\<close>

definition retired_push :: "addr \<Rightarrow> reclaim_fn option \<Rightarrow> hazptr_domain \<Rightarrow> hazptr_domain" where
  "retired_push obj reclaim_fn domain =
     (let shard_idx = unat (calc_shard obj)
      in domain\<lparr>shards := (shards domain)[shard_idx := (obj, reclaim_fn) # shards domain ! shard_idx]\<rparr>)"

definition hazptr_retire :: "addr \<Rightarrow> reclaim_fn option \<Rightarrow> state \<Rightarrow> (error + state) option" where
  "hazptr_retire obj reclaim_fn s =
     (if obj = 0 then Some (Inr s)
      else
        let domain1 = retired_push obj reclaim_fn (default_domain s);
            domain2 = domain1\<lparr>retired_count := retired_count domain1 + 1\<rparr>;
            (rcount, domain3) = domain_check_threshold domain2;
            s3 = s\<lparr>default_domain := domain3\<rparr>
        in if 0 < sint rcount then domain_do_reclamation rcount s3 else Some (Inr s3))"


section \<open>faaq.c\<close>

definition create_node :: "addr \<Rightarrow> state \<Rightarrow> error + addr \<times> state" where
  "create_node initial_item s =
     (case malloc s of (node, s1) \<Rightarrow>
        if node = 0 then Inl Abort
        else
          let n = (if initial_item \<noteq> 0 then
                     \<lparr>deqidx = 0, enqidx = 1, nextp = 0,
                      items = (replicate FAA_BUFFER_SIZE 0)[0 := initial_item]\<rparr>
                   else
                     \<lparr>deqidx = 0, enqidx = 0, nextp = 0, items = replicate FAA_BUFFER_SIZE 0\<rparr>)
          in Inr (node, s1\<lparr>nodes := (nodes s1)(node \<mapsto> n)\<rparr>))"



definition cas_tail :: "addr \<Rightarrow> addr \<Rightarrow> addr \<Rightarrow> state \<Rightarrow> state" where
  "cas_tail q expected desired s =
     (case queues s q of
        None \<Rightarrow> s
      | Some Q \<Rightarrow> if tail Q = expected then s\<lparr>queues := (queues s)(q \<mapsto> Q\<lparr>tail := desired\<rparr>)\<rparr> else s)"

text \<open>
  The \<open>while (true)\<close> loop of \<open>faa_queue_enqueue\<close>; \<open>hrec\<close> is the record of the holder
  \<open>q->holders[tid]\<close>. Reading a node that is not allocated is \<open>Fault\<close>.
\<close>

partial_function (option) enqueue_loop ::
  "addr \<Rightarrow> addr \<Rightarrow> addr \<Rightarrow> state \<Rightarrow> (error + state) option" where
  "enqueue_loop q item hrec s =
     (case queues s q of
        None \<Rightarrow> Some (Inl Fault)
      | Some Q \<Rightarrow>
     (case HAZPTR_PROTECT (Some hrec) (\<lambda>_. tail Q) s of
        None \<Rightarrow> None
      | Some (ltail, s1) \<Rightarrow>
     (case nodes s1 ltail of
        None \<Rightarrow> Some (Inl Fault)
      | Some n \<Rightarrow>
          let idx = enqidx n;
              s2 = s1\<lparr>nodes := (nodes s1)(ltail \<mapsto> n\<lparr>enqidx := idx + 1\<rparr>)\<rparr>
          in
          if FAA_BUFFER_SIZE \<le> unat idx then
            (if ltail \<noteq> tail Q then enqueue_loop q item hrec (hazptr_reset (Some hrec) 0 s2)
             else
               let lnext = nextp n in
               if lnext = 0 then
                 (case create_node item s2 of
                    Inl e \<Rightarrow> Some (Inl e)
                  | Inr (new_node, s3) \<Rightarrow>
                      (case nodes s3 ltail of
                         None \<Rightarrow> Some (Inl Fault)
                       | Some n3 \<Rightarrow>
                           if nextp n3 = 0 then
                             let s4 = s3\<lparr>nodes := (nodes s3)(ltail \<mapsto> n3\<lparr>nextp := new_node\<rparr>)\<rparr>;
                                 s5 = cas_tail q ltail new_node s4
                             in Some (Inr (hazptr_reset (Some hrec) 0 s5))
                           else
                             enqueue_loop q item hrec
                               (hazptr_reset (Some hrec) 0 (node_reclaim new_node s3))))
               else
                 enqueue_loop q item hrec
                   (hazptr_reset (Some hrec) 0 (cas_tail q ltail lnext s2)))
          else
            (if items n ! unat idx = 0 then
               Some (Inr (hazptr_reset (Some hrec) 0
                 (s2\<lparr>nodes := (nodes s2)(ltail \<mapsto>
                        n\<lparr>enqidx := idx + 1, items := (items n)[unat idx := item]\<rparr>)\<rparr>)))
             else enqueue_loop q item hrec (hazptr_reset (Some hrec) 0 s2)))))"

text \<open>
  \<open>ndebug\<close> says whether assertions are compiled out. With assertions, a failed \<open>assert\<close>
  is \<open>AssertFail\<close>.
\<close>

definition faa_queue_enqueue ::
  "bool \<Rightarrow> addr \<Rightarrow> addr \<Rightarrow> c_int \<Rightarrow> state \<Rightarrow> (error + state) option" where
  "faa_queue_enqueue ndebug q item tid s =
     (if q = 0 \<and> \<not> ndebug then Some (Inl AssertFail)
      else
        case queues s q of
          None \<Rightarrow> Some (Inl Fault)
        | Some Q \<Rightarrow>
            if sint tid < 0 \<or> sint (max_threads Q) \<le> sint tid then
              (if ndebug then Some (Inr s) else Some (Inl AssertFail))
            else if item = 0 then Some (Inl Abort)
            else if item = taken_sentinel Q then Some (Inl Abort)
            else enqueue_loop q item (holders Q ! nat (sint tid)) s)"

text \<open>The \<open>while (true)\<close> loop of \<open>faa_queue_dequeue\<close> with the code after it.\<close>

partial_function (option) dequeue_loop ::
  "addr \<Rightarrow> addr \<Rightarrow> state \<Rightarrow> (error + addr \<times> state) option" where
  "dequeue_loop q hrec s =
     (case queues s q of
        None \<Rightarrow> Some (Inl Fault)
      | Some Q \<Rightarrow>
     (case HAZPTR_PROTECT (Some hrec) (\<lambda>_. head Q) s of
        None \<Rightarrow> None
      | Some (lhead, s1) \<Rightarrow>
     (case nodes s1 lhead of
        None \<Rightarrow> Some (Inl Fault)
      | Some n \<Rightarrow>
          let taken = taken_sentinel Q;
              deq_idx = deqidx n;
              enq_idx = enqidx n;
              lnext = nextp n
          in
          if unat enq_idx \<le> unat deq_idx \<and> lnext = 0 then
            Some (Inr (0, hazptr_reset (Some hrec) 0 s1))
          else
            let idx = deqidx n;
                s2 = s1\<lparr>nodes := (nodes s1)(lhead \<mapsto> n\<lparr>deqidx := idx + 1\<rparr>)\<rparr>
            in
            if FAA_BUFFER_SIZE \<le> unat idx then
              (if nextp n = 0 then Some (Inr (0, hazptr_reset (Some hrec) 0 s2))
               else if head Q = lhead then
                 (case hazptr_retire lhead (Some node_reclaim_fn)
                         (hazptr_reset (Some hrec) 0
                            (s2\<lparr>queues := (queues s2)(q \<mapsto> Q\<lparr>head := nextp n\<rparr>)\<rparr>)) of
                    None \<Rightarrow> None
                  | Some (Inl e) \<Rightarrow> Some (Inl e)
                  | Some (Inr s5) \<Rightarrow> dequeue_loop q hrec s5)
               else dequeue_loop q hrec (hazptr_reset (Some hrec) 0 s2))
            else
              let item = items n ! unat idx;
                  s3 = s2\<lparr>nodes := (nodes s2)(lhead \<mapsto>
                         n\<lparr>deqidx := idx + 1, items := (items n)[unat idx := taken]\<rparr>)\<rparr>
              in
              if item = 0 then dequeue_loop q hrec (hazptr_reset (Some hrec) 0 s3)
              else Some (Inr (item, hazptr_reset (Some hrec) 0 s3)))))"

definition faa_queue_dequeue ::
  "bool \<Rightarrow> addr \<Rightarrow> c_int \<Rightarrow> state \<Rightarrow> (error + addr \<times> state) option" where
  "faa_queue_dequeue ndebug q tid s =
     (if q = 0 \<and> \<not> ndebug then Some (Inl AssertFail)
      else
        case queues s q of
          None \<Rightarrow> Some (Inl Fault)
        | Some Q \<Rightarrow>
            if sint tid < 0 \<or> sint (max_threads Q) \<le> sint tid then
              (if ndebug then Some (Inr (0, s)) else Some (Inl AssertFail))
            else dequeue_loop q (holders Q ! nat (sint tid)) s)"

section \<open>Notions used in the statements\<close>

text \<open>The result of the \<open>k\<close>-th of the coming allocation calls (\<open>0\<close>: it fails).\<close>

definition alloc_result :: "addr list \<Rightarrow> nat \<Rightarrow> addr" where
  "alloc_result m k = (if k < length m then m ! k else 0)"

text \<open>
  The part of \<open>hazptr_retire\<close> after the push (the increment of the centralized count, the
  threshold check and the reclamation pass it may start).
\<close>

definition retire_count_and_check :: "state \<Rightarrow> (error + state) option" where
  "retire_count_and_check s =
     (let domain2 = (default_domain s)\<lparr>retired_count := retired_count (default_domain s) + 1\<rparr>;
          (rcount, domain3) = domain_check_threshold domain2;
          s3 = s\<lparr>default_domain := domain3\<rparr>
      in if 0 < sint rcount then domain_do_reclamation rcount s3 else Some (Inr s3))"

text \<open>The state with the entry \<open>(a, f)\<close> on top of shard \<open>(a >> 4) mod 8\<close>.\<close>

definition push_shard :: "addr \<Rightarrow> reclaim_fn option \<Rightarrow> state \<Rightarrow> state" where
  "push_shard a f s =
     s\<lparr>default_domain := (default_domain s)\<lparr>shards :=
        (shards (default_domain s))[unat (drop_bit 4 a mod 8) :=
           (a, f) # shards (default_domain s) ! unat (drop_bit 4 a mod 8)]\<rparr>\<rparr>"

text \<open>All retired descriptors that are on a shard, shard \<open>0\<close> first.\<close>

definition retired :: "hazptr_domain \<Rightarrow> (addr \<times> reclaim_fn option) list" where
  "retired d = concat (shards d)"


text \<open>Reclaiming one entry that is not protected (the else branch of the matching loop).\<close>

definition reclaim_entry :: "addr \<times> reclaim_fn option \<Rightarrow> state \<Rightarrow> state" where
  "reclaim_entry e s = (case snd e of None \<Rightarrow> s | Some f \<Rightarrow> call_reclaim f (fst e) s)"





section \<open>Basic facts\<close>


lemma alloc_result_tl [simp]: "alloc_result (tl m) k = alloc_result m (Suc k)"
  by (cases m) (simp_all add: alloc_result_def)

lemma hazptr_reset_twice: "hazptr_reset h p (hazptr_reset h p' s) = hazptr_reset h p s"
  by (simp add: hazptr_reset_def split: option.splits)

section \<open>HAZPTR_PROTECT\<close>

lemma protect_loop_result:
  assumes "protect_loop h src k p s = Some y"
  shows "p = src (k - 1) \<longrightarrow>
         (\<exists>j\<ge>k. fst y = src j \<and> src (j - 1) = src j \<and>
            (\<forall>i. k \<le> i \<and> i < j \<longrightarrow> src i \<noteq> src (i - 1)) \<and>
            snd y = hazptr_reset h (fst y) s)"
proof (rule protect_loop.raw_induct
    [where P = "\<lambda>h src k p s y. p = src (k - 1) \<longrightarrow>
         (\<exists>j\<ge>k. fst y = src j \<and> src (j - 1) = src j \<and>
            (\<forall>i. k \<le> i \<and> i < j \<longrightarrow> src i \<noteq> src (i - 1)) \<and>
            snd y = hazptr_reset h (fst y) s)", OF _ assms])
  fix loop :: "addr option \<Rightarrow> (nat \<Rightarrow> addr) \<Rightarrow> nat \<Rightarrow> addr \<Rightarrow> state \<Rightarrow> (addr \<times> state) option"
  fix h src k p s y
  assume IH: "\<And>h src k p s y. loop h src k p s = Some y \<Longrightarrow> p = src (k - 1) \<longrightarrow>
         (\<exists>j\<ge>k. fst y = src j \<and> src (j - 1) = src j \<and>
            (\<forall>i. k \<le> i \<and> i < j \<longrightarrow> src i \<noteq> src (i - 1)) \<and>
            snd y = hazptr_reset h (fst y) s)"
    and body: "(let s' = hazptr_reset h p s; v = src k
                in if p = v then Some (p, s') else loop h src (Suc k) v s') = Some y"
  show "p = src (k - 1) \<longrightarrow>
         (\<exists>j\<ge>k. fst y = src j \<and> src (j - 1) = src j \<and>
            (\<forall>i. k \<le> i \<and> i < j \<longrightarrow> src i \<noteq> src (i - 1)) \<and>
            snd y = hazptr_reset h (fst y) s)"
  proof (cases "p = src k")
    case True
    with body have y: "y = (p, hazptr_reset h p s)"
      by (simp add: Let_def)
    show ?thesis
    proof (rule impI, rule exI[of _ k], intro conjI)
      assume p: "p = src (k - 1)"
      show "k \<le> k" by simp
      show "fst y = src k" by (simp add: y True)
      show "src (k - 1) = src k" using p True by simp
      show "\<forall>i. k \<le> i \<and> i < k \<longrightarrow> src i \<noteq> src (i - 1)" using leD by blast
      show "snd y = hazptr_reset h (fst y) s" by (simp add: y)
    qed
  next
    case False
    with body have "loop h src (Suc k) (src k) (hazptr_reset h p s) = Some y"
      by (simp add: Let_def)
    from IH[OF this] have "\<exists>j\<ge>Suc k. fst y = src j \<and> src (j - 1) = src j \<and>
            (\<forall>i. Suc k \<le> i \<and> i < j \<longrightarrow> src i \<noteq> src (i - 1)) \<and>
            snd y = hazptr_reset h (fst y) (hazptr_reset h p s)"
      by simp
    then obtain j where j: "j \<ge> Suc k" "fst y = src j" "src (j - 1) = src j"
      "\<forall>i. Suc k \<le> i \<and> i < j \<longrightarrow> src i \<noteq> src (i - 1)"
      "snd y = hazptr_reset h (fst y) (hazptr_reset h p s)"
      by blast
    show ?thesis
    proof (rule impI, rule exI[of _ j], intro conjI allI impI)
      fix i assume p: "p = src (k - 1)" and i: "k \<le> i \<and> i < j"
      show "src i \<noteq> src (i - 1)"
      proof (cases "i = k")
        case True with False p show ?thesis by simp
      next
        case False with i j(4) show ?thesis by simp
      qed
    next
      show "k \<le> j" using j(1) by simp
      show "fst y = src j" by (rule j(2))
      show "src (j - 1) = src j" by (rule j(3))
      show "snd y = hazptr_reset h (fst y) s" using j(5) by (simp add: hazptr_reset_twice)
    qed
  qed
qed

lemma HAZPTR_PROTECT_const: "HAZPTR_PROTECT h (\<lambda>_. c) s = Some (c, hazptr_reset h c s)"
  unfolding HAZPTR_PROTECT_def by (subst protect_loop.simps) simp

text \<open>
  C3. When \<open>HAZPTR_PROTECT\<close> terminates with \<open>result\<close>, then \<open>result\<close> is the value of the
  final validating load of the source (load \<open>j\<close>, the first one that returns the value of the
  load before it), the state is the initial one with \<open>result\<close> stored by \<open>hazptr_reset\<close>, and
  the protection slot of the holder's record holds exactly \<open>result\<close>. When the source is not
  modified (every load returns \<open>c\<close>, which may be null), the macro terminates and returns
  \<open>c\<close> with \<open>c\<close> protected.
\<close>

theorem HAZPTR_PROTECT_result:
  "(HAZPTR_PROTECT h src s = Some (r, s') \<longrightarrow>
      (\<exists>j\<ge>1. r = src j \<and> src (j - 1) = src j \<and>
         (\<forall>i. 1 \<le> i \<and> i < j \<longrightarrow> src i \<noteq> src (i - 1)) \<and>
         s' = hazptr_reset h r s \<and>
         (\<forall>hprec. h = Some hprec \<and> hprec \<noteq> 0 \<longrightarrow> rec_ptr s' hprec = r))) \<and>
   ((\<forall>k. src k = c) \<longrightarrow>
      HAZPTR_PROTECT h src s = Some (c, hazptr_reset h c s) \<and>
      (\<forall>hprec. h = Some hprec \<and> hprec \<noteq> 0 \<longrightarrow> rec_ptr (hazptr_reset h c s) hprec = c))"
proof (intro conjI impI)
  assume a: "HAZPTR_PROTECT h src s = Some (r, s')"
  then have "protect_loop h src 1 (src 0) s = Some (r, s')"
    by (simp add: HAZPTR_PROTECT_def)
  from protect_loop_result[OF this] obtain j where j: "j \<ge> 1" "r = src j" "src (j - 1) = src j"
    "\<forall>i. 1 \<le> i \<and> i < j \<longrightarrow> src i \<noteq> src (i - 1)" "s' = hazptr_reset h r s"
    by auto
  have "\<forall>hprec. h = Some hprec \<and> hprec \<noteq> 0 \<longrightarrow> rec_ptr s' hprec = r"
    using j(5) by (simp add: hazptr_reset_def)
  with j show "\<exists>j\<ge>1. r = src j \<and> src (j - 1) = src j \<and>
         (\<forall>i. 1 \<le> i \<and> i < j \<longrightarrow> src i \<noteq> src (i - 1)) \<and>
         s' = hazptr_reset h r s \<and>
         (\<forall>hprec. h = Some hprec \<and> hprec \<noteq> 0 \<longrightarrow> rec_ptr s' hprec = r)"
    by blast
next
  assume "\<forall>k. src k = c"
  then have "src = (\<lambda>_. c)" by auto
  then show "HAZPTR_PROTECT h src s = Some (c, hazptr_reset h c s)"
    by (simp add: HAZPTR_PROTECT_const)
next
  show "\<forall>hprec. h = Some hprec \<and> hprec \<noteq> 0 \<longrightarrow> rec_ptr (hazptr_reset h c s) hprec = c"
    by (simp add: hazptr_reset_def)
qed

theorem HAZPTR_PROTECT_result_witness:
  "HAZPTR_PROTECT (Some 64) (\<lambda>_. 0) (init_state [] True) =
     Some (0, hazptr_reset (Some 64) 0 (init_state [] True)) \<and>
   HAZPTR_PROTECT (Some 64) (\<lambda>_. 4096) (init_state [] True) =
     Some (4096, hazptr_reset (Some 64) 4096 (init_state [] True)) \<and>
   rec_ptr (hazptr_reset (Some 64) 4096 (init_state [] True)) 64 = 4096"
  using HAZPTR_PROTECT_result [of "Some 64" "\<lambda>_. 0" "init_state [] True" 0
      "hazptr_reset (Some 64) 0 (init_state [] True)" 0]
    HAZPTR_PROTECT_result [of "Some 64" "\<lambda>_. 4096" "init_state [] True" 4096
      "hazptr_reset (Some 64) 4096 (init_state [] True)" 4096]
  by simp

section \<open>The reclamation threshold\<close>

lemma sint_double:
  fixes h :: "64 word"
  assumes "unat h < 2 ^ 62"
  shows "sint (h * 2) = 2 * int (unat h)"
proof -
  have "int (unat h) < int (2 ^ 62)" using assms by (simp only: of_nat_less_iff)
  then have b: "uint h < 2 ^ 62" by simp
  have "h * 2 = word_of_int (2 * uint h)" by simp
  then have "sint (h * 2) = signed_take_bit 63 (2 * uint h)"
    by (simp only: sint_sbintrunc') simp
  also have "\<dots> = 2 * uint h"
  proof (rule signed_take_bit_int_eq_self)
    show "- (2 ^ 63) \<le> 2 * uint h"
      by (rule order_trans [of _ 0]) simp_all
    show "2 * uint h < 2 ^ 63" using b by simp
  qed
  finally show ?thesis by simp
qed

lemma calculate_threshold_ge: "1000 \<le> sint (calculate_threshold d)"
  by (simp add: calculate_threshold_def HP_RCOUNT_THRESHOLD_def Let_def)

lemma calculate_threshold_eq:
  assumes "unat (hprec_count d) < 2 ^ 62"
  shows "sint (calculate_threshold d) = max 1000 (2 * int (unat (hprec_count d)))"
  using sint_double[OF assms]
  by (simp add: calculate_threshold_def HP_RCOUNT_THRESHOLD_def HP_HCOUNT_MULTIPLIER_def
      Let_def max_def)

text \<open>
  C7. \<open>hprec_count\<close> counts the HP records allocated so far; it is only written by
  \<open>domain_acquire_hprec\<close>, once per record, and records are never freed, so it is far below
  \<open>2^62\<close> (each record takes 64 bytes of a 64-bit address space). For every such count
  \<open>calculate_threshold\<close> is \<open>max(1000, 2 * hprec_count)\<close>; it is always at least the base
  threshold \<open>1000\<close>, and it does not decrease when the record count grows.
\<close>

theorem calculate_threshold_max:
  "1000 \<le> sint (calculate_threshold d) \<and>
   (unat (hprec_count d) < 2 ^ 62 \<longrightarrow>
      sint (calculate_threshold d) = max 1000 (2 * int (unat (hprec_count d)))) \<and>
   (unat (hprec_count d) \<le> unat (hprec_count d') \<and> unat (hprec_count d') < 2 ^ 62 \<longrightarrow>
      sint (calculate_threshold d) \<le> sint (calculate_threshold d'))"
proof (intro conjI impI)
  show "1000 \<le> sint (calculate_threshold d)" by (rule calculate_threshold_ge)
  show "sint (calculate_threshold d) = max 1000 (2 * int (unat (hprec_count d)))"
    if "unat (hprec_count d) < 2 ^ 62"
    using that by (rule calculate_threshold_eq)
  show "sint (calculate_threshold d) \<le> sint (calculate_threshold d')"
    if a: "unat (hprec_count d) \<le> unat (hprec_count d') \<and> unat (hprec_count d') < 2 ^ 62"
  proof -
    from a have b: "unat (hprec_count d) < 2 ^ 62" by linarith
    from a have "int (unat (hprec_count d)) \<le> int (unat (hprec_count d'))"
      by (simp only: of_nat_le_iff)
    then show ?thesis
      unfolding calculate_threshold_eq[OF b] calculate_threshold_eq[OF conjunct2[OF a]]
      by (simp add: max_def)
  qed
qed

theorem calculate_threshold_max_witness:
  "sint (calculate_threshold (zero_domain\<lparr>hprec_count := 600\<rparr>)) = 1200 \<and>
   sint (calculate_threshold (zero_domain\<lparr>hprec_count := 600\<rparr>))
     \<le> sint (calculate_threshold (zero_domain\<lparr>hprec_count := 700\<rparr>))"
  using calculate_threshold_max [of "zero_domain\<lparr>hprec_count := 600\<rparr>"
      "zero_domain\<lparr>hprec_count := 700\<rparr>"]
  by simp

section \<open>hazptr_retire and the retired shards\<close>

lemma calc_shard_mod: "calc_shard a = drop_bit 4 a mod 8"
proof -
  have "drop_bit 4 a AND 7 = take_bit 3 (drop_bit 4 a)"
    by (simp add: take_bit_eq_mask mask_eq_exp_minus_1)
  then show ?thesis
    by (simp add: calc_shard_def HP_NUM_SHARDS_def take_bit_eq_mod)
qed

lemma calc_shard_unat: "unat (calc_shard a) = (unat a div 16) mod 8"
  by (simp add: calc_shard_mod unat_mod unat_drop_bit_eq drop_bit_eq_div unat_div)

lemma calc_shard_less: "unat (calc_shard a) < HP_NUM_SHARDS"
  by (simp add: calc_shard_unat HP_NUM_SHARDS_def)

text \<open>
  C9. \<open>hazptr_retire\<close> with a null descriptor returns at once and leaves the whole state as
  it is (no push, no change of \<open>retired_count\<close>, no threshold check and no reclamation pass),
  whatever the reclaim function.
\<close>

theorem hazptr_retire_null: "hazptr_retire 0 reclaim_fn s = Some (Inr s)"
  by (simp add: hazptr_retire_def)

lemma retired_push_eq: "s\<lparr>default_domain := retired_push a f (default_domain s)\<rparr> = push_shard a f s"
  by (simp add: retired_push_def push_shard_def calc_shard_mod Let_def)

lemma hazptr_retire_split:
  "a \<noteq> 0 \<Longrightarrow> hazptr_retire a f s = retire_count_and_check (push_shard a f s)"
  by (simp add: hazptr_retire_def retire_count_and_check_def Let_def retired_push_eq[symmetric])

text \<open>
  C8. The shard index computed by \<open>calc_shard\<close>, \<open>(a >> 4) & (S - 1)\<close>, is \<open>(a >> 4) mod S\<close>
  with \<open>S = 8\<close> for every address \<open>a\<close>. For every non-null descriptor at address \<open>a\<close>,
  \<open>hazptr_retire\<close> is the push of the descriptor on top of shard \<open>(a >> 4) mod 8\<close> (the other
  shards and the rest of the state as they are), followed by the code after the push: the
  increment of \<open>retired_count\<close>, the threshold check and the reclamation pass it may start.
  Whenever no pass runs (the incremented count is below the threshold, or another reclaimer
  holds the flag and the claimed count is handed back) the call returns with the descriptor
  on top of that shard and the count incremented.
\<close>

theorem hazptr_retire_shard:
  "calc_shard a = drop_bit 4 a mod 8 \<and>
   unat (calc_shard a) = (unat a div 2 ^ 4) mod HP_NUM_SHARDS \<and>
   (a \<noteq> 0 \<longrightarrow>
      hazptr_retire a f s =
        retire_count_and_check
          (s\<lparr>default_domain := (default_domain s)\<lparr>shards :=
             (shards (default_domain s))[unat (drop_bit 4 a mod 8) :=
                (a, f) # shards (default_domain s) ! unat (drop_bit 4 a mod 8)]\<rparr>\<rparr>)) \<and>
   (a \<noteq> 0 \<and>
    (sint (retired_count (default_domain s) + 1) < sint (calculate_threshold (default_domain s)) \<or>
     reclaiming (default_domain s)) \<longrightarrow>
      (\<exists>s'. hazptr_retire a f s = Some (Inr s') \<and>
         shards (default_domain s') =
           (shards (default_domain s))[unat (drop_bit 4 a mod 8) :=
              (a, f) # shards (default_domain s) ! unat (drop_bit 4 a mod 8)] \<and>
         retired_count (default_domain s') = retired_count (default_domain s) + 1))"
proof (intro conjI impI)
  show "calc_shard a = drop_bit 4 a mod 8" by (rule calc_shard_mod)
  show "unat (calc_shard a) = (unat a div 2 ^ 4) mod HP_NUM_SHARDS"
    by (simp add: calc_shard_unat HP_NUM_SHARDS_def)
  show "hazptr_retire a f s =
        retire_count_and_check
          (s\<lparr>default_domain := (default_domain s)\<lparr>shards :=
             (shards (default_domain s))[unat (drop_bit 4 a mod 8) :=
                (a, f) # shards (default_domain s) ! unat (drop_bit 4 a mod 8)]\<rparr>\<rparr>)"
    if "a \<noteq> 0"
    using that hazptr_retire_split [of a f s] by (simp add: push_shard_def)
next
  assume a: "a \<noteq> 0 \<and>
    (sint (retired_count (default_domain s) + 1) < sint (calculate_threshold (default_domain s)) \<or>
     reclaiming (default_domain s))"
  define p where "p = push_shard a f s"
  have sh: "shards (default_domain p) =
           (shards (default_domain s))[unat (drop_bit 4 a mod 8) :=
              (a, f) # shards (default_domain s) ! unat (drop_bit 4 a mod 8)]"
    by (simp add: p_def push_shard_def)
  have rc: "retired_count (default_domain p) = retired_count (default_domain s)"
    by (simp add: p_def push_shard_def)
  have th: "calculate_threshold ((default_domain p)\<lparr>retired_count := c\<rparr>) =
            calculate_threshold (default_domain s)" for c
    by (simp add: calculate_threshold_def p_def push_shard_def)
  have rf: "reclaiming (default_domain p) = reclaiming (default_domain s)"
    by (simp add: p_def push_shard_def)
  have eq: "hazptr_retire a f s = retire_count_and_check p"
    using a by (simp add: hazptr_retire_split p_def)
  show "\<exists>s'. hazptr_retire a f s = Some (Inr s') \<and>
         shards (default_domain s') =
           (shards (default_domain s))[unat (drop_bit 4 a mod 8) :=
              (a, f) # shards (default_domain s) ! unat (drop_bit 4 a mod 8)] \<and>
         retired_count (default_domain s') = retired_count (default_domain s) + 1"
  proof (cases "sint (retired_count (default_domain s) + 1)
                  < sint (calculate_threshold (default_domain s))")
    case True
    then show ?thesis
      unfolding eq
      by (simp add: retire_count_and_check_def domain_check_threshold_def Let_def th rc sh)
  next
    case False
    with a have b: "reclaiming (default_domain s)" by blast
    from False have pos: "0 < sint (retired_count (default_domain s) + 1)"
      using calculate_threshold_ge [of "default_domain s"] by linarith
    from False b pos show ?thesis
      unfolding eq
      by (simp add: retire_count_and_check_def domain_check_threshold_def Let_def th rc sh rf
          domain_do_reclamation_def)
  qed
qed

theorem hazptr_retire_shard_witness:
  "(\<exists>s'. hazptr_retire 0x1230 (Some (user_reclaim_fn 0)) (init_state [] True) = Some (Inr s') \<and>
     shards (default_domain s') =
       [[], [], [], [(0x1230, Some (user_reclaim_fn 0))], [], [], [], []] \<and>
     retired_count (default_domain s') = 1) \<and>
   (\<exists>s'. hazptr_retire 0x1230 (Some (user_reclaim_fn 0))
            ((init_state [] True)\<lparr>default_domain :=
               zero_domain\<lparr>retired_count := 999, reclaiming := True\<rparr>\<rparr>) = Some (Inr s') \<and>
     shards (default_domain s') =
       [[], [], [], [(0x1230, Some (user_reclaim_fn 0))], [], [], [], []] \<and>
     retired_count (default_domain s') = 1000)"
proof -
  have i: "unat (drop_bit 4 (0x1230 :: addr) mod 8) = 3"
    by (simp add: drop_bit_eq_div)
  have r: "replicate HP_NUM_SHARDS ([] :: (addr \<times> reclaim_fn option) list) =
             [[], [], [], [], [], [], [], []]"
    by (simp add: HP_NUM_SHARDS_def numeral_eq_Suc)
  have u: "[[], [], [], [], [], [], [], []][3 := (0x1230 :: addr, Some (user_reclaim_fn 0)) # []]
        = [[], [], [], [(0x1230, Some (user_reclaim_fn 0))], [], [], [], []]"
    by (simp add: numeral_eq_Suc)
  have n: "[[], [], [], [], [], [], [], []] ! 3 = ([] :: (addr \<times> reclaim_fn option) list)"
    by (simp add: numeral_eq_Suc)
  have t: "sint (retired_count (default_domain (init_state [] True)) + 1)
             < sint (calculate_threshold (default_domain (init_state [] True)))"
    by (simp add: init_state_def zero_domain_def calculate_threshold_def
        HP_RCOUNT_THRESHOLD_def HP_HCOUNT_MULTIPLIER_def)
  have d: "shards (default_domain (init_state [] True)) = [[], [], [], [], [], [], [], []]"
    "retired_count (default_domain (init_state [] True)) = 0"
    by (simp_all add: init_state_def zero_domain_def r)
  have d2: "shards (default_domain ((init_state [] True)\<lparr>default_domain :=
               zero_domain\<lparr>retired_count := 999, reclaiming := True\<rparr>\<rparr>))
            = [[], [], [], [], [], [], [], []]"
    "retired_count (default_domain ((init_state [] True)\<lparr>default_domain :=
               zero_domain\<lparr>retired_count := 999, reclaiming := True\<rparr>\<rparr>)) = 999"
    "reclaiming (default_domain ((init_state [] True)\<lparr>default_domain :=
               zero_domain\<lparr>retired_count := 999, reclaiming := True\<rparr>\<rparr>))"
    by (simp_all add: zero_domain_def r)
  from hazptr_retire_shard [of "0x1230" "Some (user_reclaim_fn 0)" "init_state [] True",
      THEN conjunct2, THEN conjunct2, THEN conjunct2] t
  have 1: "\<exists>s'. hazptr_retire 0x1230 (Some (user_reclaim_fn 0)) (init_state [] True) = Some (Inr s') \<and>
     shards (default_domain s') =
       [[], [], [], [(0x1230, Some (user_reclaim_fn 0))], [], [], [], []] \<and>
     retired_count (default_domain s') = 1"
    by (simp only: i d u n) simp
  from hazptr_retire_shard [of "0x1230" "Some (user_reclaim_fn 0)"
      "(init_state [] True)\<lparr>default_domain :=
               zero_domain\<lparr>retired_count := 999, reclaiming := True\<rparr>\<rparr>",
      THEN conjunct2, THEN conjunct2, THEN conjunct2]
  have 2: "\<exists>s'. hazptr_retire 0x1230 (Some (user_reclaim_fn 0))
            ((init_state [] True)\<lparr>default_domain :=
               zero_domain\<lparr>retired_count := 999, reclaiming := True\<rparr>\<rparr>) = Some (Inr s') \<and>
     shards (default_domain s') =
       [[], [], [], [(0x1230, Some (user_reclaim_fn 0))], [], [], [], []] \<and>
     retired_count (default_domain s') = 1000"
    by (simp only: i d2 u n) simp
  from 1 2 show ?thesis by blast
qed

section \<open>domain_do_reclamation while another reclaimer runs\<close>

text \<open>
  C6. When the \<open>reclaiming\<close> flag is already set, \<open>domain_do_reclamation\<close> returns the state
  in which \<open>claimed_count\<close> has been added to \<open>retired_count\<close> and nothing else differs: no
  callback is called, the shards and the scan set are as before and the flag is still set.
\<close>

theorem domain_do_reclamation_busy:
  assumes "reclaiming (default_domain s)"
  shows "\<exists>s'. domain_do_reclamation claimed_count s = Some (Inr s') \<and>
           s' = s\<lparr>default_domain := (default_domain s)\<lparr>retired_count :=
                    retired_count (default_domain s) + claimed_count\<rparr>\<rparr> \<and>
           reclaim_log s' = reclaim_log s \<and>
           shards (default_domain s') = shards (default_domain s) \<and>
           scan_set (default_domain s') = scan_set (default_domain s) \<and>
           reclaiming (default_domain s')"
  using assms by (simp add: domain_do_reclamation_def Let_def)

theorem domain_do_reclamation_busy_witness:
  "reclaiming (default_domain ((init_state [] True)
      \<lparr>default_domain := zero_domain\<lparr>reclaiming := True\<rparr>\<rparr>)) \<and>
   domain_do_reclamation 5 ((init_state [] True)
      \<lparr>default_domain := zero_domain\<lparr>reclaiming := True\<rparr>\<rparr>) =
     Some (Inr ((init_state [] True)
      \<lparr>default_domain := zero_domain\<lparr>reclaiming := True, retired_count := 5\<rparr>\<rparr>))"
  using domain_do_reclamation_busy
    [of "(init_state [] True)\<lparr>default_domain := zero_domain\<lparr>reclaiming := True\<rparr>\<rparr>" 5]
  by (simp add: zero_domain_def init_state_def)

section \<open>Invalid thread ids\<close>

text \<open>
  C10. With assertions disabled and \<open>tid\<close> outside \<open>[0, max_threads)\<close>, \<open>faa_queue_enqueue\<close>
  returns and \<open>faa_queue_dequeue\<close> returns null, both leaving the whole state (so the queue,
  every node with its indices, slots and next pointer, and every protection slot) as it
  is; no index is claimed.
\<close>

theorem invalid_tid_no_effect:
  assumes "queues s q = Some Q"
    and "sint tid < 0 \<or> sint (max_threads Q) \<le> sint tid"
  shows "faa_queue_enqueue True q item tid s = Some (Inr s) \<and>
         faa_queue_dequeue True q tid s = Some (Inr (0, s))"
  using assms by (simp add: faa_queue_enqueue_def faa_queue_dequeue_def)

theorem invalid_tid_no_effect_witness:
  "faa_queue_enqueue True 16 4096 2
     ((init_state [] True)\<lparr>queues := [16 \<mapsto> \<lparr>head = 32, tail = 32, taken_sentinel = 48,
        max_threads = 2, holders = [64, 128]\<rparr>]\<rparr>) =
     Some (Inr ((init_state [] True)\<lparr>queues := [16 \<mapsto> \<lparr>head = 32, tail = 32,
        taken_sentinel = 48, max_threads = 2, holders = [64, 128]\<rparr>]\<rparr>)) \<and>
   faa_queue_dequeue True 16 (- 1)
     ((init_state [] True)\<lparr>queues := [16 \<mapsto> \<lparr>head = 32, tail = 32, taken_sentinel = 48,
        max_threads = 2, holders = [64, 128]\<rparr>]\<rparr>) =
     Some (Inr (0, (init_state [] True)\<lparr>queues := [16 \<mapsto> \<lparr>head = 32, tail = 32,
        taken_sentinel = 48, max_threads = 2, holders = [64, 128]\<rparr>]\<rparr>))"
  using invalid_tid_no_effect [of "(init_state [] True)\<lparr>queues := [16 \<mapsto> \<lparr>head = 32,
        tail = 32, taken_sentinel = 48, max_threads = 2, holders = [64, 128]\<rparr>]\<rparr>" 16
      "\<lparr>head = 32, tail = 32, taken_sentinel = 48, max_threads = 2, holders = [64, 128]\<rparr>"
      2 4096]
    invalid_tid_no_effect [of "(init_state [] True)\<lparr>queues := [16 \<mapsto> \<lparr>head = 32,
        tail = 32, taken_sentinel = 48, max_threads = 2, holders = [64, 128]\<rparr>]\<rparr>" 16
      "\<lparr>head = 32, tail = 32, taken_sentinel = 48, max_threads = 2, holders = [64, 128]\<rparr>"
      "- 1" 4096]
  by simp

section \<open>faa_queue_create\<close>





lemma hazptr_reset_frame [simp]:
  "nodes (hazptr_reset h p s) = nodes s" "queues (hazptr_reset h p s) = queues s"
  "mem (hazptr_reset h p s) = mem s" "tss_init_flag (hazptr_reset h p s) = tss_init_flag s"
  "tss_create_ok (hazptr_reset h p s) = tss_create_ok s"
  "default_domain (hazptr_reset h p s) = default_domain s"
  "reclaim_log (hazptr_reset h p s) = reclaim_log s"
  "tls_cache (hazptr_reset h p s) = tls_cache s"
  "registered (hazptr_reset h p s) = registered s"
  by (simp_all add: hazptr_reset_def split: option.splits)










section \<open>Reclamation in a quiescent state\<close>



lemma calculate_threshold_cong:
  "hprec_count d' = hprec_count d \<Longrightarrow> calculate_threshold d' = calculate_threshold d"
  by (simp add: calculate_threshold_def)

section \<open>Reclaiming unprotected entries\<close>

lemma call_reclaim_frame [simp]:
  "default_domain (call_reclaim f a s) = default_domain s"
  "rec_ptr (call_reclaim f a s) = rec_ptr s"
  "queues (call_reclaim f a s) = queues s"
  "mem (call_reclaim f a s) = mem s"
  "tls_cache (call_reclaim f a s) = tls_cache s"
  "tss_init_flag (call_reclaim f a s) = tss_init_flag s"
  "registered (call_reclaim f a s) = registered s"
  "tss_create_ok (call_reclaim f a s) = tss_create_ok s"
  "reclaim_log (call_reclaim f a s) = reclaim_log s @ [(f, a)]"
  by (cases f; simp add: call_reclaim_def node_reclaim_def Let_def)+


lemma call_reclaim_domain_upd:
  "call_reclaim f a (s\<lparr>default_domain := d\<rparr>) = (call_reclaim f a s)\<lparr>default_domain := d\<rparr>"
  by (cases f) (simp_all add: call_reclaim_def node_reclaim_def Let_def)

lemma reclaim_entry_frame [simp]:
  "default_domain (reclaim_entry e s) = default_domain s"
  "rec_ptr (reclaim_entry e s) = rec_ptr s"
  "queues (reclaim_entry e s) = queues s"
  "mem (reclaim_entry e s) = mem s"
  "tls_cache (reclaim_entry e s) = tls_cache s"
  "tss_init_flag (reclaim_entry e s) = tss_init_flag s"
  "registered (reclaim_entry e s) = registered s"
  "tss_create_ok (reclaim_entry e s) = tss_create_ok s"
  by (simp_all add: reclaim_entry_def split: option.splits)


lemma reclaim_entry_domain_upd:
  "reclaim_entry e (s\<lparr>default_domain := d\<rparr>) = (reclaim_entry e s)\<lparr>default_domain := d\<rparr>"
  by (simp add: reclaim_entry_def call_reclaim_domain_upd split: option.splits)


lemma fold_reclaim_frame [simp]:
  "default_domain (fold reclaim_entry es s) = default_domain s"
  "rec_ptr (fold reclaim_entry es s) = rec_ptr s"
  "queues (fold reclaim_entry es s) = queues s"
  "mem (fold reclaim_entry es s) = mem s"
  "tls_cache (fold reclaim_entry es s) = tls_cache s"
  "tss_init_flag (fold reclaim_entry es s) = tss_init_flag s"
  "registered (fold reclaim_entry es s) = registered s"
  "tss_create_ok (fold reclaim_entry es s) = tss_create_ok s"
  by (induction es arbitrary: s; simp)+


lemma fold_reclaim_domain_upd:
  "fold reclaim_entry es (s\<lparr>default_domain := d\<rparr>) = (fold reclaim_entry es s)\<lparr>default_domain := d\<rparr>"
  by (induction es arbitrary: s) (simp_all add: reclaim_entry_domain_upd)














lemma reclaim_entry_mem_upd:
  "reclaim_entry e (s\<lparr>mem := m\<rparr>) = (reclaim_entry e s)\<lparr>mem := m\<rparr>"
  by (cases e; cases "snd e"; cases "the (snd e)")
     (simp_all add: reclaim_entry_def call_reclaim_def node_reclaim_def Let_def)

lemma fold_reclaim_mem_upd:
  "fold reclaim_entry es (s\<lparr>mem := m\<rparr>) = (fold reclaim_entry es s)\<lparr>mem := m\<rparr>"
  by (induction es arbitrary: s) (simp_all add: reclaim_entry_mem_upd)

lemma fold_reclaim_nodes_upd [simp]:
  "nodes (fold reclaim_entry es (s\<lparr>default_domain := d\<rparr>)) = nodes (fold reclaim_entry es s)"
  "nodes (fold reclaim_entry es (s\<lparr>mem := m\<rparr>)) = nodes (fold reclaim_entry es s)"
  by (simp_all add: fold_reclaim_domain_upd fold_reclaim_mem_upd)

lemma fold_reclaim_log_upd [simp]:
  "reclaim_log (fold reclaim_entry es (s\<lparr>default_domain := d\<rparr>)) = reclaim_log (fold reclaim_entry es s)"
  "reclaim_log (fold reclaim_entry es (s\<lparr>mem := m\<rparr>)) = reclaim_log (fold reclaim_entry es s)"
  by (simp_all add: fold_reclaim_domain_upd fold_reclaim_mem_upd)

lemma retired_upd [simp]:
  "retired (d\<lparr>reclaiming := b\<rparr>) = retired d"
  "retired (d\<lparr>scan_set := c\<rparr>) = retired d"
  "retired (d\<lparr>retired_count := n\<rparr>) = retired d"
  "retired (d\<lparr>hprec_list := l\<rparr>) = retired d"
  "retired (d\<lparr>hprec_avail := l\<rparr>) = retired d"
  "retired (d\<lparr>hprec_count := k\<rparr>) = retired d"
  by (simp_all add: retired_def)






lemma push_shard_frame [simp]:
  "rec_ptr (push_shard a f s) = rec_ptr s" "queues (push_shard a f s) = queues s"
  "nodes (push_shard a f s) = nodes s" "mem (push_shard a f s) = mem s"
  "reclaim_log (push_shard a f s) = reclaim_log s"
  "tls_cache (push_shard a f s) = tls_cache s" "tss_init_flag (push_shard a f s) = tss_init_flag s"
  "registered (push_shard a f s) = registered s" "tss_create_ok (push_shard a f s) = tss_create_ok s"
  "hprec_list (default_domain (push_shard a f s)) = hprec_list (default_domain s)"
  "hprec_avail (default_domain (push_shard a f s)) = hprec_avail (default_domain s)"
  "hprec_count (default_domain (push_shard a f s)) = hprec_count (default_domain s)"
  "scan_set (default_domain (push_shard a f s)) = scan_set (default_domain s)"
  "retired_count (default_domain (push_shard a f s)) = retired_count (default_domain s)"
  "reclaiming (default_domain (push_shard a f s)) = reclaiming (default_domain s)"
  "length (shards (default_domain (push_shard a f s))) = length (shards (default_domain s))"
  by (simp_all add: push_shard_def)


lemma calculate_threshold_push [simp]:
  "calculate_threshold (default_domain (push_shard a f s)) = calculate_threshold (default_domain s)"
  by (rule calculate_threshold_cong) simp

lemma calculate_threshold_upd [simp]:
  "calculate_threshold (d\<lparr>retired_count := c\<rparr>) = calculate_threshold d"
  "calculate_threshold (d\<lparr>shards := x\<rparr>) = calculate_threshold d"
  "calculate_threshold (d\<lparr>scan_set := y\<rparr>) = calculate_threshold d"
  "calculate_threshold (d\<lparr>reclaiming := b\<rparr>) = calculate_threshold d"
  by (simp_all add: calculate_threshold_def)

lemma fold_reclaim_push [simp]:
  "nodes (fold reclaim_entry es (push_shard a f s)) = nodes (fold reclaim_entry es s)"
  by (simp add: push_shard_def)

















lemma retired_init [simp]: "retired (default_domain (init_state m t)) = []"
  by (simp add: retired_def init_state_def zero_domain_def)





end
